theory Spec2Isabelle
  imports Main
begin

section \<open>Time\<close>

text \<open>
  A \<^verbatim>\<open>time.Time\<close> is an instant in nanoseconds after the zero time and a \<^verbatim>\<open>time.Duration\<close> a signed
  64-bit count of nanoseconds. \<^verbatim>\<open>t.Sub(u)\<close> saturates at the largest and the smallest
  duration, and \<^verbatim>\<open>time.Since(u)\<close> is \<^verbatim>\<open>time.Now().Sub(u)\<close>: the clock reading is an
  argument of every function that reads the clock.
\<close>

type_synonym time = int
type_synonym duration = int

definition maxDuration :: duration where
  "maxDuration = 2 ^ 63 - 1"

definition minDuration :: duration where
  "minDuration = - (2 ^ 63)"

definition time_Sub :: "time \<Rightarrow> time \<Rightarrow> duration" where
  "time_Sub t u =
     (if t - u > maxDuration then maxDuration
      else if t - u < minDuration then minDuration
      else t - u)"

section \<open>Errors\<close>

text \<open>
  The errors that the breaker, the pool, the store, the limiter and the OTP service
  return, told apart by what they say. A nil error is \<open>None\<close> of \<open>error option\<close>.
\<close>

datatype error =
    ErrCircuitOpen
  | ErrPoolClosed
  | ErrContext
  | ErrRedisNil
  | ErrRedisDown
  | ErrRandom
  | ErrOTPNotFound
  | ErrInvalidOTP
  | ErrTooManyRequests int duration
  | ErrSyntax
  | ErrRange
  | ErrOther string

section \<open>Circuit breaker (circuitbreaker.go)\<close>

datatype State = StateClosed | StateOpen | StateHalfOpen

record Config =
  FailureThreshold :: int
  SuccessThreshold :: int
  Timeout :: duration
  MaxConcurrent :: int
  WindowSize :: duration
  MinRequestCount :: int

definition DefaultConfig :: Config where
  "DefaultConfig =
     \<lparr> FailureThreshold = 5, SuccessThreshold = 3, Timeout = 30 * 1000000000,
       MaxConcurrent = 2, WindowSize = 60 * 1000000000, MinRequestCount = 10 \<rparr>"

text \<open>
  The breaker's fields. \<open>semaphore\<close> is the number of tokens that sit in the buffered
  channel of capacity \<open>MaxConcurrent\<close>; the logger and the telemetry copy of the state
  in the key-value store do not take part in any decision and are left out.
\<close>

record CircuitBreaker =
  config :: Config
  state :: State
  failures :: int
  successes :: int
  lastFailure :: time
  lastStateChange :: time
  semaphore :: nat

text \<open>
  \<^verbatim>\<open>NewCircuitBreaker\<close>: closed, counters zero, both timestamps the zero time, the
  semaphore empty. (With a negative \<open>MaxConcurrent\<close> the source panics when it makes the
  channel, so that no breaker with such a configuration exists.) The \<^verbatim>\<open>stateManager\<close>
  that it starts takes the lock once for every tick of its ticker: these are the sweeps
  of the schedules below.
\<close>

definition zeroTime :: time where
  "zeroTime = 0"

definition NewCircuitBreaker :: "Config \<Rightarrow> CircuitBreaker" where
  "NewCircuitBreaker c =
     \<lparr> config = c, state = StateClosed, failures = 0, successes = 0,
       lastFailure = zeroTime, lastStateChange = zeroTime, semaphore = 0 \<rparr>"

definition canExecute :: "CircuitBreaker \<Rightarrow> time \<Rightarrow> bool" where
  "canExecute cb now =
     (case state cb of
        StateClosed \<Rightarrow> True
      | StateOpen \<Rightarrow> time_Sub now (lastStateChange cb) \<ge> Timeout (config cb)
      | StateHalfOpen \<Rightarrow> True)"

definition transitionTo :: "CircuitBreaker \<Rightarrow> State \<Rightarrow> time \<Rightarrow> CircuitBreaker" where
  "transitionTo cb newState timestamp =
     (let cb1 = cb\<lparr> state := newState, lastStateChange := timestamp \<rparr> in
      if newState = StateClosed then cb1\<lparr> failures := 0, successes := 0 \<rparr>
      else if newState = StateHalfOpen then cb1\<lparr> failures := 0, successes := 0 \<rparr>
      else cb1)"

text \<open>
  \<^verbatim>\<open>updateState\<close> reads the clock twice: \<open>now\<close> stamps a transition, and \<open>later\<close> is
  the reading inside \<^verbatim>\<open>time.Since\<close> of the open case.
\<close>

definition updateState :: "CircuitBreaker \<Rightarrow> time \<Rightarrow> time \<Rightarrow> CircuitBreaker" where
  "updateState cb now later =
     (case state cb of
        StateClosed \<Rightarrow>
          if failures cb \<ge> FailureThreshold (config cb) then transitionTo cb StateOpen now
          else cb
      | StateOpen \<Rightarrow>
          if time_Sub later (lastStateChange cb) \<ge> Timeout (config cb)
          then transitionTo cb StateHalfOpen now
          else cb
      | StateHalfOpen \<Rightarrow>
          if successes cb \<ge> SuccessThreshold (config cb) then transitionTo cb StateClosed now
          else if failures cb \<ge> FailureThreshold (config cb) then transitionTo cb StateOpen now
          else cb)"

text \<open>
  \<^verbatim>\<open>recordResult\<close>: \<open>t0\<close> is its own clock reading, \<open>t1\<close> and \<open>t2\<close> are the two of
  \<^verbatim>\<open>updateState\<close>.
\<close>

definition recordResult ::
  "CircuitBreaker \<Rightarrow> error option \<Rightarrow> time \<Rightarrow> time \<Rightarrow> time \<Rightarrow> CircuitBreaker" where
  "recordResult cb err t0 t1 t2 =
     updateState
       (if err \<noteq> None then cb\<lparr> failures := failures cb + 1, lastFailure := t0 \<rparr>
        else cb\<lparr> successes := successes cb + 1 \<rparr>)
       t1 t2"

text \<open>
  The four clock readings of one \<^verbatim>\<open>Execute\<close> call, in program order: in
  \<^verbatim>\<open>canExecute\<close>, in \<^verbatim>\<open>recordResult\<close>, and the two of \<^verbatim>\<open>updateState\<close>.
\<close>

record ticks =
  t_can :: time
  t_rec :: time
  t_upd :: time
  t_since :: time

text \<open>
  \<^verbatim>\<open>Execute\<close>, one call run to its end before the next. \<open>res\<close> is what the wrapped
  function returns if it is called. The result is the new breaker, the returned error,
  and whether the wrapped function was called. In the half-open state the call takes a
  token of the semaphore when one is free (the non-blocking send) and gives it back on
  return (the deferred receive).
\<close>

definition Execute ::
  "CircuitBreaker \<Rightarrow> ticks \<Rightarrow> error option \<Rightarrow> CircuitBreaker \<times> error option \<times> bool" where
  "Execute cb k res =
     (if \<not> canExecute cb (t_can k) then (cb, Some ErrCircuitOpen, False)
      else if state cb = StateHalfOpen then
        (if int (semaphore cb) < MaxConcurrent (config cb) then
           (let cb1 = cb\<lparr> semaphore := Suc (semaphore cb) \<rparr>;
                cb2 = recordResult cb1 res (t_rec k) (t_upd k) (t_since k)
            in (cb2\<lparr> semaphore := semaphore cb2 - 1 \<rparr>, res, True))
         else (cb, Some ErrCircuitOpen, False))
      else (recordResult cb res (t_rec k) (t_upd k) (t_since k), res, True))"









definition ForceOpen :: "CircuitBreaker \<Rightarrow> time \<Rightarrow> CircuitBreaker" where
  "ForceOpen cb now = transitionTo cb StateOpen now"

definition ForceClose :: "CircuitBreaker \<Rightarrow> time \<Rightarrow> CircuitBreaker" where
  "ForceClose cb now = transitionTo cb StateClosed now"

definition Reset :: "CircuitBreaker \<Rightarrow> time \<Rightarrow> CircuitBreaker" where
  "Reset cb now =
     transitionTo
       (cb\<lparr> failures := 0, successes := 0, lastFailure := zeroTime,
            lastStateChange := zeroTime \<rparr>)
       StateClosed now"

section \<open>Decimal integers (strconv)\<close>

text \<open>
  \<^verbatim>\<open>strconv.Itoa\<close> and \<^verbatim>\<open>strconv.Atoi\<close> on the 64-bit \<^verbatim>\<open>int\<close>. \<^verbatim>\<open>Atoi\<close> takes one
  optional sign and then reads decimal digits from the left into an unsigned 64-bit
  number: a byte that is no digit ends it with a syntax error and the value 0, and digits
  that no longer fit end it at once with a range error, before the bytes behind them are
  looked at. A number that fits 64 bits unsigned but not the signed \<^verbatim>\<open>int\<close> is a range
  error as well. On a range error the value is the nearest bound of \<^verbatim>\<open>int\<close>. The
  callers modelled here keep the value and drop the error.
\<close>

definition maxInt :: int where
  "maxInt = 2 ^ 63 - 1"

definition minInt :: int where
  "minInt = - (2 ^ 63)"

definition maxUint64 :: nat where
  "maxUint64 = 2 ^ 64 - 1"

definition digitChar :: "nat \<Rightarrow> char" where
  "digitChar d = ''0123456789'' ! d"

definition digitVal :: "char \<Rightarrow> nat option" where
  "digitVal c =
     map_of [(CHR ''0'', 0), (CHR ''1'', 1), (CHR ''2'', 2), (CHR ''3'', 3), (CHR ''4'', 4),
             (CHR ''5'', 5), (CHR ''6'', 6), (CHR ''7'', 7), (CHR ''8'', 8), (CHR ''9'', 9)] c"

fun natDigits :: "nat \<Rightarrow> string" where
  "natDigits n = (if n < 10 then [digitChar n] else natDigits (n div 10) @ [digitChar (n mod 10)])"

declare natDigits.simps [simp del]

definition Itoa :: "int \<Rightarrow> string" where
  "Itoa i = (if i < 0 then CHR ''-'' # natDigits (nat (- i)) else natDigits (nat i))"

text \<open>
  The loop of \<^verbatim>\<open>ParseUint\<close> in base 10 for 64 bits, from the number \<open>n\<close> read so far.
  \<open>n \<ge> maxUint64 div 10 + 1\<close> is the source's test that \<open>n * 10\<close> overflows, and
  \<open>n * 10 + d > maxUint64\<close> its test that adding the digit does.
\<close>

datatype uint_result = UintOk nat | UintSyntax | UintRange

fun ParseUint :: "string \<Rightarrow> nat \<Rightarrow> uint_result" where
  "ParseUint [] n = UintOk n"
| "ParseUint (c # cs) n =
     (case digitVal c of
        None \<Rightarrow> UintSyntax
      | Some d \<Rightarrow>
          if n \<ge> maxUint64 div 10 + 1 then UintRange
          else if n * 10 + d > maxUint64 then UintRange
          else ParseUint cs (n * 10 + d))"

definition Atoi :: "string \<Rightarrow> int \<times> error option" where
  "Atoi s =
     (let (neg, ds) =
            (case s of
               [] \<Rightarrow> (False, [])
             | c # cs \<Rightarrow>
                 if c = CHR ''-'' then (True, cs)
                 else if c = CHR ''+'' then (False, cs)
                 else (False, s))
      in if ds = [] then (0, Some ErrSyntax)
         else case ParseUint ds 0 of
                UintSyntax \<Rightarrow> (0, Some ErrSyntax)
              | UintRange \<Rightarrow> (if neg then minInt else maxInt, Some ErrRange)
              | UintOk n \<Rightarrow>
                  if \<not> neg \<and> int n \<ge> 2 ^ 63 then (maxInt, Some ErrRange)
                  else if neg \<and> int n > 2 ^ 63 then (minInt, Some ErrRange)
                  else (if neg then - int n else int n, None))"

section \<open>Key-value store (redis.go)\<close>

text \<open>
  The client of redis.go forwards every call to the store, which is not part of the
  repository. The store is modelled by what its commands do: a key holds a string and
  an optional deadline, and a key whose deadline has passed is absent. Each command can
  fail on its own (\<open>get_down\<close>, \<open>set_down\<close>, \<open>del_down\<close>: the store cannot be
  reached), and a successful \<^verbatim>\<open>Get\<close> of an absent key returns the empty string with the
  error \<^verbatim>\<open>redis.Nil\<close>.
\<close>

record entry =
  val :: string
  expireAt :: "time option"

record Client =
  entries :: "string \<Rightarrow> entry option"
  get_down :: bool
  set_down :: bool
  del_down :: bool

definition KeepTTL :: duration where
  "KeepTTL = - 1"

definition lookup :: "Client \<Rightarrow> time \<Rightarrow> string \<Rightarrow> entry option" where
  "lookup c now key =
     (case entries c key of
        None \<Rightarrow> None
      | Some e \<Rightarrow>
          (case expireAt e of
             None \<Rightarrow> Some e
           | Some w \<Rightarrow> if now > w then None else Some e))"

definition Get :: "Client \<Rightarrow> time \<Rightarrow> string \<Rightarrow> string \<times> error option" where
  "Get c now key =
     (if get_down c then ([], Some ErrRedisDown)
      else case lookup c now key of
             None \<Rightarrow> ([], Some ErrRedisNil)
           | Some e \<Rightarrow> (val e, None))"

text \<open>
  The expiration as the client sends it with \<^verbatim>\<open>SET\<close>, for a positive expiration: in
  whole seconds when it is a whole number of seconds, and otherwise in whole
  milliseconds, the rest dropped, and as one millisecond when it is shorter than that.
\<close>

definition sentExpiration :: "duration \<Rightarrow> duration" where
  "sentExpiration d =
     (if d < 1000000000 \<or> d mod 1000000000 \<noteq> 0 then
        (if d < 1000000 then 1000000 else (d div 1000000) * 1000000)
      else (d div 1000000000) * 1000000000)"

text \<open>
  \<^verbatim>\<open>Set\<close>: with a positive expiration the key gets the value and the deadline that lies
  the sent expiration after the time of the command; with the expiration \<open>KeepTTL\<close> it
  keeps the deadline it has; with any other expiration it gets no deadline.
\<close>

definition Set :: "Client \<Rightarrow> time \<Rightarrow> string \<Rightarrow> string \<Rightarrow> duration \<Rightarrow> Client \<times> error option" where
  "Set c now key v expiration =
     (if set_down c then (c, Some ErrRedisDown)
      else
        (let dl = (if expiration > 0 then Some (now + sentExpiration expiration)
                   else if expiration = KeepTTL then
                     (case lookup c now key of None \<Rightarrow> None | Some e \<Rightarrow> expireAt e)
                   else None)
         in (c\<lparr> entries := (entries c)(key \<mapsto> \<lparr> val = v, expireAt = dl \<rparr>) \<rparr>, None)))"

definition Del :: "Client \<Rightarrow> string \<Rightarrow> Client \<times> error option" where
  "Del c key =
     (if del_down c then (c, Some ErrRedisDown)
      else (c\<lparr> entries := (entries c)(key := None) \<rparr>, None))"

section \<open>Rate limiter (rate_limiter.go)\<close>

text \<open>
  \<^verbatim>\<open>checkRateLimit\<close>. \<open>t1\<close> is the time of the \<^verbatim>\<open>Get\<close> and \<open>t2\<close> the time of the
  \<^verbatim>\<open>Set\<close>. The result is the store afterwards and the returned error; logging and the
  metric do not change either. \<^verbatim>\<open>count++\<close> cannot overflow: it runs only when
  \<open>count < limit\<close>, and the limit is an \<^verbatim>\<open>int\<close>.
\<close>

definition currentCount :: "Client \<Rightarrow> time \<Rightarrow> string \<Rightarrow> int" where
  "currentCount c t1 key =
     (let current = fst (Get c t1 key) in if current \<noteq> [] then fst (Atoi current) else 0)"

definition checkRateLimit ::
  "Client \<Rightarrow> time \<Rightarrow> time \<Rightarrow> string \<Rightarrow> int \<Rightarrow> duration \<Rightarrow> Client \<times> error option" where
  "checkRateLimit c t1 t2 key limit dur =
     (let count = currentCount c t1 key in
      if count \<ge> limit then (c, Some (ErrTooManyRequests limit dur))
      else (fst (Set c t2 key (Itoa (count + 1)) dur), None))"

text \<open>The key of a scope and an identifier, as the four handlers format it.\<close>

definition rateLimitKey :: "string \<Rightarrow> string \<Rightarrow> string" where
  "rateLimitKey scope identifier = ''rate_limit:'' @ scope @ '':'' @ identifier"

section \<open>OTP service (otp_service.go)\<close>

record OTPConfig =
  Length :: int
  Expiry :: duration
  RedisKeyPrefix :: string
  CodeCharset :: string

definition otpKey :: "OTPConfig \<Rightarrow> string \<Rightarrow> string" where
  "otpKey cfg phoneNumber = RedisKeyPrefix cfg @ '':'' @ phoneNumber"

text \<open>
  \<^verbatim>\<open>string(b)\<close> of a byte \<open>b\<close> is the UTF-8 encoding of the code point \<open>b\<close>: one byte
  below 128, two bytes from 128 on.
\<close>

definition stringOfByte :: "char \<Rightarrow> string" where
  "stringOfByte b =
     (if (of_char b :: nat) < 128 then [b]
      else [char_of (192 + (of_char b :: nat) div 64), char_of (128 + (of_char b :: nat) mod 64)])"

text \<open>
  \<^verbatim>\<open>generateRandomCode\<close>. The random source is the function \<open>rnd\<close>: its value at
  \<open>i\<close> is what the reader gives at the \<open>i\<close>-th draw, \<open>None\<close> when it fails.
  \<^verbatim>\<open>rand.Int\<close> returns a number below its bound, here the sample modulo the length of the
  charset. \<open>genLoop\<close> is the loop, with \<open>n\<close> the iterations left and \<open>i\<close> the
  index of the next draw.
\<close>

fun genLoop :: "string \<Rightarrow> (nat \<Rightarrow> nat option) \<Rightarrow> nat \<Rightarrow> nat \<Rightarrow> string \<Rightarrow> string \<times> error option" where
  "genLoop charset rnd 0 i code = (code, None)"
| "genLoop charset rnd (Suc n) i code =
     (case rnd i of
        None \<Rightarrow> ([], Some ErrRandom)
      | Some num \<Rightarrow>
          genLoop charset rnd n (Suc i)
            (code @ stringOfByte (charset ! (num mod length charset))))"

definition generateRandomCode ::
  "OTPConfig \<Rightarrow> (nat \<Rightarrow> nat option) \<Rightarrow> int \<Rightarrow> string \<times> error option" where
  "generateRandomCode cfg rnd len =
     (let charset = (if CodeCharset cfg = [] then ''0123456789'' else CodeCharset cfg)
      in genLoop charset rnd (nat len) 0 [])"

text \<open>
  \<^verbatim>\<open>GenerateOTP\<close> and \<^verbatim>\<open>ValidateOTP\<close>: the store afterwards and what is returned. The
  metric and the event handler, whose result is dropped, are left out.
\<close>

definition GenerateOTP ::
  "OTPConfig \<Rightarrow> Client \<Rightarrow> time \<Rightarrow> (nat \<Rightarrow> nat option) \<Rightarrow> string \<Rightarrow>
   Client \<times> string \<times> error option" where
  "GenerateOTP cfg c now rnd phoneNumber =
     (case generateRandomCode cfg rnd (Length cfg) of
        (code, Some err) \<Rightarrow> (c, [], Some err)
      | (code, None) \<Rightarrow>
          (case Set c now (otpKey cfg phoneNumber) code (Expiry cfg) of
             (c1, Some err) \<Rightarrow> (c1, [], Some err)
           | (c1, None) \<Rightarrow> (c1, code, None)))"

definition ValidateOTP ::
  "OTPConfig \<Rightarrow> Client \<Rightarrow> time \<Rightarrow> string \<Rightarrow> string \<Rightarrow> Client \<times> error option" where
  "ValidateOTP cfg c now phoneNumber code =
     (case Get c now (otpKey cfg phoneNumber) of
        (storedCode, err) \<Rightarrow>
          if err \<noteq> None \<or> storedCode = [] then (c, Some ErrOTPNotFound)
          else if storedCode \<noteq> code then (c, Some ErrInvalidOTP)
          else Del c (otpKey cfg phoneNumber))"

section \<open>Retry helper (retry.go)\<close>











section \<open>Connection pool (connection_pool.go)\<close>

text \<open>
  A connection is known by its identity; the nil connection is \<open>None\<close> of
  \<open>conn option\<close>. Whether a connection is valid is its own matter, so \<^verbatim>\<open>IsValid\<close> is
  an argument of the operations that ask. A waiter's channel has one slot: it is empty,
  holds a connection, or has been closed while empty.
\<close>

type_synonym conn = nat

datatype chan = ChanEmpty | ChanFull conn | ChanClosed

text \<open>
  \<open>chans\<close> is the state of the waiters' channels, by the number each got when it was
  made, and \<open>closedConns\<close> lists the connections on which \<^verbatim>\<open>Close\<close> was called, latest
  first. Every operation below is one critical section of the pool's lock.
\<close>

record ConnectionPool =
  maxOpen :: int
  maxIdle :: int
  connections :: "conn option list"
  idle :: "conn list"
  waiting :: "nat list"
  closed :: bool
  chans :: "nat \<Rightarrow> chan"
  nextChan :: nat
  closedConns :: "conn list"

definition NewConnectionPool :: "int \<Rightarrow> int \<Rightarrow> ConnectionPool" where
  "NewConnectionPool mo mi =
     \<lparr> maxOpen = mo, maxIdle = mi, connections = [], idle = [], waiting = [],
       closed = False, chans = (\<lambda>_. ChanEmpty), nextChan = 0, closedConns = [] \<rparr>"

text \<open>
  How a call of \<^verbatim>\<open>Get\<close> leaves its first critical section: it returns, or it has
  queued a channel and blocks on it.
\<close>

datatype get_result = Returned "conn option" "error option" | Blocked nat

text \<open>
  \<^verbatim>\<open>Get\<close> up to its return or to the point where it blocks. \<open>made\<close> is what the
  factory gives if it is called.
\<close>

definition PoolGet ::
  "ConnectionPool \<Rightarrow> (conn \<Rightarrow> bool) \<Rightarrow> error + conn \<Rightarrow> ConnectionPool \<times> get_result" where
  "PoolGet p isValid made =
     (if closed p then (p, Returned None (Some ErrPoolClosed))
      else
        (let (p1, got) =
               (if length (idle p) > 0 then
                  (let conn = last (idle p); q = p\<lparr> idle := butlast (idle p) \<rparr> in
                   if isValid conn
                   then (q\<lparr> connections := connections q @ [Some conn] \<rparr>, Some conn)
                   else (q\<lparr> closedConns := conn # closedConns q \<rparr>, None))
                else (p, None))
         in case got of
              Some conn \<Rightarrow> (p1, Returned (Some conn) None)
            | None \<Rightarrow>
                if int (length (connections p1)) < maxOpen p1 then
                  (case made of
                     Inl err \<Rightarrow> (p1, Returned None (Some err))
                   | Inr conn \<Rightarrow>
                       (p1\<lparr> connections := connections p1 @ [Some conn] \<rparr>,
                        Returned (Some conn) None))
                else
                  (p1\<lparr> waiting := waiting p1 @ [nextChan p1], nextChan := Suc (nextChan p1) \<rparr>,
                   Blocked (nextChan p1))))"

text \<open>
  The blocked \<^verbatim>\<open>Get\<close> receives from its channel \<open>w\<close>: the connection in it, or nil
  when the channel was closed. It has no result while the channel is empty and open.
\<close>

definition PoolGetReceive ::
  "ConnectionPool \<Rightarrow> nat \<Rightarrow> (ConnectionPool \<times> conn option \<times> error option) option" where
  "PoolGetReceive p w =
     (case chans p w of
        ChanEmpty \<Rightarrow> None
      | ChanFull conn \<Rightarrow>
          Some (p\<lparr> chans := (chans p)(w := ChanEmpty),
                   connections := connections p @ [Some conn] \<rparr>, Some conn, None)
      | ChanClosed \<Rightarrow>
          Some (p\<lparr> connections := connections p @ [None] \<rparr>, None, None))"

text \<open>The blocked \<^verbatim>\<open>Get\<close> sees its context cancelled: it leaves the queue.\<close>

definition PoolGetCancel ::
  "ConnectionPool \<Rightarrow> nat \<Rightarrow> ConnectionPool \<times> conn option \<times> error option" where
  "PoolGetCancel p w = (p\<lparr> waiting := remove1 w (waiting p) \<rparr>, None, Some ErrContext)"

definition PoolPut :: "ConnectionPool \<Rightarrow> (conn \<Rightarrow> bool) \<Rightarrow> conn \<Rightarrow> ConnectionPool" where
  "PoolPut p isValid conn =
     (if closed p then p\<lparr> closedConns := conn # closedConns p \<rparr>
      else
        (let p1 = p\<lparr> connections := remove1 (Some conn) (connections p) \<rparr> in
         if \<not> isValid conn then p1\<lparr> closedConns := conn # closedConns p1 \<rparr>
         else
           (let p2 = (if int (length (idle p1)) < maxIdle p1
                      then p1\<lparr> idle := idle p1 @ [conn] \<rparr>
                      else p1\<lparr> closedConns := conn # closedConns p1 \<rparr>)
            in case waiting p2 of
                 [] \<Rightarrow> p2
               | w # ws \<Rightarrow> p2\<lparr> waiting := ws, chans := (chans p2)(w := ChanFull conn) \<rparr>)))"

text \<open>
  \<^verbatim>\<open>Close\<close>. Calling \<^verbatim>\<open>Close\<close> on the nil connections of the active list is not
  recorded.
\<close>

definition PoolClose :: "ConnectionPool \<Rightarrow> ConnectionPool" where
  "PoolClose p =
     (if closed p then p
      else
        p\<lparr> closed := True,
           closedConns := rev (idle p) @ rev (List.map_filter id (connections p)) @ closedConns p,
           connections := [], idle := [],
           chans := (\<lambda>w. if w \<in> set (waiting p) then ChanClosed else chans p w),
           waiting := [] \<rparr>)"

text \<open>
  A schedule of the pool: the critical sections in the order in which they take the
  lock. \<open>OpGet made\<close> is a call of \<^verbatim>\<open>Get\<close> up to its return or its blocking,
  \<open>OpReceive w\<close> and \<open>OpCancel w\<close> are the two ways in which the \<^verbatim>\<open>Get\<close> blocked on
  channel \<open>w\<close> goes on, \<open>OpPut conn\<close> and \<open>OpClose\<close> are the calls of \<^verbatim>\<open>Put\<close> and
  \<^verbatim>\<open>Close\<close>. A receive on a channel that is empty and open does not happen yet, and
  the pool stays as it is.
\<close>

datatype pool_op = OpGet "error + conn" | OpReceive nat | OpCancel nat | OpPut conn | OpClose

datatype pool_out =
    OutGet get_result
  | OutWoken "conn option" "error option"
  | OutStillBlocked
  | OutDone

fun PoolStep :: "(conn \<Rightarrow> bool) \<Rightarrow> ConnectionPool \<Rightarrow> pool_op \<Rightarrow> ConnectionPool \<times> pool_out" where
  "PoolStep isValid p (OpGet made) = (case PoolGet p isValid made of (q, r) \<Rightarrow> (q, OutGet r))"
| "PoolStep isValid p (OpReceive w) =
     (case PoolGetReceive p w of
        None \<Rightarrow> (p, OutStillBlocked)
      | Some (q, conn, err) \<Rightarrow> (q, OutWoken conn err))"
| "PoolStep isValid p (OpCancel w) = (case PoolGetCancel p w of (q, conn, err) \<Rightarrow> (q, OutWoken conn err))"
| "PoolStep isValid p (OpPut conn) = (PoolPut p isValid conn, OutDone)"
| "PoolStep isValid p OpClose = (PoolClose p, OutDone)"

fun PoolRun ::
  "(conn \<Rightarrow> bool) \<Rightarrow> ConnectionPool \<Rightarrow> pool_op list \<Rightarrow> ConnectionPool \<times> pool_out list" where
  "PoolRun isValid p [] = (p, [])"
| "PoolRun isValid p (x # xs) =
     (case PoolStep isValid p x of
        (q, out) \<Rightarrow> (case PoolRun isValid q xs of (r, outs) \<Rightarrow> (r, out # outs)))"

section \<open>Properties of the circuit breaker\<close>



lemma transitionTo_simps:
  "transitionTo cb StateOpen t = cb\<lparr> state := StateOpen, lastStateChange := t \<rparr>"
  "transitionTo cb StateClosed t =
     cb\<lparr> state := StateClosed, lastStateChange := t, failures := 0, successes := 0 \<rparr>"
  "transitionTo cb StateHalfOpen t =
     cb\<lparr> state := StateHalfOpen, lastStateChange := t, failures := 0, successes := 0 \<rparr>"
  by (simp_all add: transitionTo_def)

lemma Execute_closed_fail:
  assumes "state cb = StateClosed" "res \<noteq> None"
  shows "Execute cb k res =
    ((if failures cb + 1 \<ge> FailureThreshold (config cb)
      then cb\<lparr> failures := failures cb + 1, lastFailure := t_rec k,
               state := StateOpen, lastStateChange := t_upd k \<rparr>
      else cb\<lparr> failures := failures cb + 1, lastFailure := t_rec k \<rparr>), res, True)"
  using assms
  by (simp add: Execute_def canExecute_def recordResult_def updateState_def transitionTo_simps)

lemma Execute_halfopen_success:
  assumes "state cb = StateHalfOpen" "int (semaphore cb) < MaxConcurrent (config cb)"
    "failures cb < FailureThreshold (config cb)"
  shows "Execute cb k None =
    ((if successes cb + 1 \<ge> SuccessThreshold (config cb)
      then cb\<lparr> successes := 0, failures := 0,
               state := StateClosed, lastStateChange := t_upd k \<rparr>
      else cb\<lparr> successes := successes cb + 1 \<rparr>), None, True)"
  using assms
  by (simp add: Execute_def canExecute_def recordResult_def updateState_def transitionTo_simps)




lemma updateState_transition:
  "state (updateState cb now later) \<noteq> state cb \<Longrightarrow>
     updateState cb now later = transitionTo cb (state (updateState cb now later)) now"
  by (cases "state cb") (auto simp: updateState_def transitionTo_simps split: if_splits)

lemma Execute_transition:
  assumes "state (fst (Execute cb k res)) \<noteq> state cb"
  shows "if state (fst (Execute cb k res)) = StateOpen
       then failures (fst (Execute cb k res)) = failures cb + (if res \<noteq> None then 1 else 0) \<and>
            successes (fst (Execute cb k res)) = successes cb + (if res \<noteq> None then 0 else 1)
       else failures (fst (Execute cb k res)) = 0 \<and> successes (fst (Execute cb k res)) = 0"
proof (cases "state cb")
  case StateClosed
  with assms show ?thesis
    by (auto simp: Execute_def canExecute_def recordResult_def updateState_def transitionTo_simps
        split: if_splits)
next
  case StateOpen
  with assms show ?thesis
    by (auto simp: Execute_def canExecute_def recordResult_def updateState_def transitionTo_simps
        split: if_splits)
next
  case StateHalfOpen
  with assms show ?thesis
    by (auto simp: Execute_def canExecute_def recordResult_def updateState_def transitionTo_simps
        Let_def split: if_splits)
qed

text \<open>
  C2, as the code has it. A transition to the closed or to the half-open state sets both
  counters to zero; a transition to the open state (from closed, from half-open, or
  forced) leaves both counters as they are. Every change of state that \<^verbatim>\<open>updateState\<close>
  makes is such a transition, so a call of \<^verbatim>\<open>Execute\<close> that changes the state to open
  leaves the counters as \<^verbatim>\<open>recordResult\<close> has just counted them, and one that changes the
  state to closed or half-open leaves both at zero. The forced close and the reset end
  with both counters zero.
\<close>

theorem transitionTo_counters:
  "failures (transitionTo cb s t) = (if s = StateOpen then failures cb else 0) \<and>
   successes (transitionTo cb s t) = (if s = StateOpen then successes cb else 0) \<and>
   state (transitionTo cb s t) = s \<and>
   lastStateChange (transitionTo cb s t) = t \<and>
   (state (updateState cb now later) \<noteq> state cb \<longrightarrow>
      updateState cb now later = transitionTo cb (state (updateState cb now later)) now) \<and>
   (state (fst (Execute cb k res)) \<noteq> state cb \<longrightarrow>
      (if state (fst (Execute cb k res)) = StateOpen
       then failures (fst (Execute cb k res)) = failures cb + (if res \<noteq> None then 1 else 0) \<and>
            successes (fst (Execute cb k res)) = successes cb + (if res \<noteq> None then 0 else 1)
       else failures (fst (Execute cb k res)) = 0 \<and> successes (fst (Execute cb k res)) = 0)) \<and>
   failures (ForceOpen cb t) = failures cb \<and> successes (ForceOpen cb t) = successes cb \<and>
   failures (ForceClose cb t) = 0 \<and> successes (ForceClose cb t) = 0 \<and>
   failures (Reset cb t) = 0 \<and> successes (Reset cb t) = 0"
proof -
  have a: "failures (transitionTo cb s t) = (if s = StateOpen then failures cb else 0)"
    "successes (transitionTo cb s t) = (if s = StateOpen then successes cb else 0)"
    "state (transitionTo cb s t) = s" "lastStateChange (transitionTo cb s t) = t"
    by (cases s; simp add: transitionTo_simps)+
  have b: "failures (ForceOpen cb t) = failures cb" "successes (ForceOpen cb t) = successes cb"
    "failures (ForceClose cb t) = 0" "successes (ForceClose cb t) = 0"
    "failures (Reset cb t) = 0" "successes (Reset cb t) = 0"
    by (simp_all add: transitionTo_simps ForceOpen_def ForceClose_def Reset_def)
  from a b updateState_transition [of cb now later] Execute_transition [of cb k res]
  show ?thesis by blast
qed

theorem transitionTo_counters_witness:
  "state (fst (Execute
      ((NewCircuitBreaker DefaultConfig)
         \<lparr> state := StateHalfOpen, successes := 2, failures := 1 \<rparr>)
      \<lparr> t_can = 10, t_rec = 11, t_upd = 12, t_since = 13 \<rparr> None)) = StateClosed \<and>
   failures (fst (Execute
      ((NewCircuitBreaker DefaultConfig)
         \<lparr> state := StateHalfOpen, successes := 2, failures := 1 \<rparr>)
      \<lparr> t_can = 10, t_rec = 11, t_upd = 12, t_since = 13 \<rparr> None)) = 0 \<and>
   successes (fst (Execute
      ((NewCircuitBreaker DefaultConfig)
         \<lparr> state := StateHalfOpen, successes := 2, failures := 1 \<rparr>)
      \<lparr> t_can = 10, t_rec = 11, t_upd = 12, t_since = 13 \<rparr> None)) = 0"
proof -
  let ?cb = "(NewCircuitBreaker DefaultConfig)
         \<lparr> state := StateHalfOpen, successes := 2, failures := 1 \<rparr>"
  let ?ticks = "\<lparr> t_can = 10, t_rec = 11, t_upd = 12, t_since = 13 \<rparr>"
  have st: "state (fst (Execute ?cb ?ticks None)) = StateClosed"
    by (simp add: Execute_halfopen_success NewCircuitBreaker_def DefaultConfig_def)
  then have ch: "state (fst (Execute ?cb ?ticks None)) \<noteq> state ?cb"
    and no: "state (fst (Execute ?cb ?ticks None)) \<noteq> StateOpen"
    by simp_all
  note r = transitionTo_counters [of ?cb StateClosed 0 0 0 ?ticks None]
  from r ch have "if state (fst (Execute ?cb ?ticks None)) = StateOpen
       then failures (fst (Execute ?cb ?ticks None)) = failures ?cb + (if None \<noteq> (None :: error option) then 1 else 0) \<and>
            successes (fst (Execute ?cb ?ticks None)) = successes ?cb + (if None \<noteq> (None :: error option) then 0 else 1)
       else failures (fst (Execute ?cb ?ticks None)) = 0 \<and> successes (fst (Execute ?cb ?ticks None)) = 0"
    by blast
  with no have "failures (fst (Execute ?cb ?ticks None)) = 0 \<and> successes (fst (Execute ?cb ?ticks None)) = 0"
    by (simp only: if_False)
  with st show ?thesis by blast
qed

text \<open>
  C2 as stated fails: a closed breaker with threshold 5 that has seen four failures and
  two successes opens on the fifth failure, and after that transition the failure
  counter is 5 and the success counter is 2.
\<close>

theorem transition_open_keeps_counters:
  "state (fst (Execute ((NewCircuitBreaker DefaultConfig)\<lparr> failures := 4, successes := 2 \<rparr>)
            \<lparr> t_can = 10, t_rec = 11, t_upd = 12, t_since = 13 \<rparr> (Some (ErrOther ''down''))))
     = StateOpen \<and>
   failures (fst (Execute ((NewCircuitBreaker DefaultConfig)\<lparr> failures := 4, successes := 2 \<rparr>)
            \<lparr> t_can = 10, t_rec = 11, t_upd = 12, t_since = 13 \<rparr> (Some (ErrOther ''down''))))
     = 5 \<and>
   successes (fst (Execute ((NewCircuitBreaker DefaultConfig)\<lparr> failures := 4, successes := 2 \<rparr>)
            \<lparr> t_can = 10, t_rec = 11, t_upd = 12, t_since = 13 \<rparr> (Some (ErrOther ''down''))))
     = 2"
  by (simp add: Execute_closed_fail NewCircuitBreaker_def DefaultConfig_def)















section \<open>Properties of the decimal conversions\<close>

lemma digit_cases: "d < 10 \<Longrightarrow> d \<in> {0, 1, 2, 3, 4, 5, 6, 7, 8, 9 :: nat}"
  by auto

lemma digitVal_digitChar: "d < 10 \<Longrightarrow> digitVal (digitChar d) = Some d"
  by (drule digit_cases) (auto simp: digitVal_def digitChar_def)

lemma digitChar_not_sign: "d < 10 \<Longrightarrow> digitChar d \<noteq> CHR ''-'' \<and> digitChar d \<noteq> CHR ''+''"
  by (drule digit_cases) (auto simp: digitChar_def)

lemma ParseUint_append:
  "ParseUint (xs @ ys) n =
     (case ParseUint xs n of UintOk m \<Rightarrow> ParseUint ys m | UintSyntax \<Rightarrow> UintSyntax
      | UintRange \<Rightarrow> UintRange)"
  by (induction xs arbitrary: n) (simp_all split: option.splits)

lemma ParseUint_natDigits: "n \<le> maxUint64 \<Longrightarrow> ParseUint (natDigits n) 0 = UintOk n"
proof (induction n rule: natDigits.induct)
  case (1 n)
  show ?case
  proof (cases "n < 10")
    case True
    then show ?thesis
      by (subst natDigits.simps) (simp add: digitVal_digitChar maxUint64_def)
  next
    case False
    have m: "n mod 10 < 10" by simp
    from "1.prems" have small: "n div 10 \<le> maxUint64" by simp
    from "1.prems" have cut: "\<not> n div 10 \<ge> maxUint64 div 10 + 1"
      by (simp add: maxUint64_def)
    have eq: "n div 10 * 10 + n mod 10 = n" by simp
    from "1.IH" [OF False small] False cut "1.prems" show ?thesis
      by (subst natDigits.simps)
        (simp add: ParseUint_append digitVal_digitChar [OF m] eq)
  qed
qed

lemma natDigits_nonempty: "natDigits n \<noteq> []"
  by (subst natDigits.simps) simp

lemma hd_natDigits: "\<exists>d cs. natDigits n = digitChar d # cs \<and> d < 10"
proof (induction n rule: natDigits.induct)
  case (1 n)
  show ?case
  proof (cases "n < 10")
    case True
    then show ?thesis by (subst natDigits.simps) auto
  next
    case False
    with 1 obtain d cs where "natDigits (n div 10) = digitChar d # cs" "d < 10" by blast
    with False show ?thesis by (subst natDigits.simps) auto
  qed
qed

lemma Atoi_Itoa:
  assumes "minInt \<le> i" "i \<le> maxInt"
  shows "Atoi (Itoa i) = (i, None)"
proof -
  obtain d cs where hd: "natDigits (nat \<bar>i\<bar>) = digitChar d # cs" "d < 10"
    using hd_natDigits by blast
  from hd(2) have ns: "digitChar d \<noteq> CHR ''-''" "digitChar d \<noteq> CHR ''+''"
    using digitChar_not_sign by auto
  from assms have "nat \<bar>i\<bar> \<le> maxUint64"
    by (simp add: minInt_def maxInt_def maxUint64_def)
  then have p: "ParseUint (digitChar d # cs) 0 = UintOk (nat \<bar>i\<bar>)"
    using ParseUint_natDigits [of "nat \<bar>i\<bar>"] hd(1) by simp
  show ?thesis
  proof (cases "i < 0")
    case True
    then have "Itoa i = CHR ''-'' # digitChar d # cs"
      using hd(1) by (simp add: Itoa_def abs_if)
    with True assms p show ?thesis
      by (simp add: Atoi_def minInt_def del: ParseUint.simps)
  next
    case False
    then have "Itoa i = digitChar d # cs"
      using hd(1) by (simp add: Itoa_def abs_if)
    with False assms p ns show ?thesis
      by (simp add: Atoi_def maxInt_def del: ParseUint.simps)
  qed
qed

lemma Atoi_range: "minInt \<le> fst (Atoi s) \<and> fst (Atoi s) \<le> maxInt"
  by (auto simp: Atoi_def Let_def minInt_def maxInt_def
      split: list.splits uint_result.splits prod.splits if_splits)

lemma Itoa_nonempty: "Itoa i \<noteq> []"
  by (simp add: Itoa_def natDigits_nonempty)

section \<open>Properties of the rate limiter\<close>

lemma currentCount_range: "minInt \<le> currentCount c t key \<and> currentCount c t key \<le> maxInt"
  using Atoi_range by (simp add: currentCount_def Let_def minInt_def maxInt_def)

lemma checkRateLimit_allowed_iff:
  "snd (checkRateLimit c t1 t2 key limit dur) = None \<longleftrightarrow> currentCount c t1 key < limit"
  by (simp add: checkRateLimit_def Let_def)

lemma sentExpiration_whole_ms:
  assumes "0 < d" "d mod 1000000 = 0"
  shows "sentExpiration d = d"
proof -
  from assms(2) have ms: "(d div 1000000) * 1000000 = d"
    using div_mult_mod_eq [of d 1000000] by simp
  from assms ms have big: "\<not> d < 1000000"
    by (cases "d < 1000000") (simp_all add: div_pos_pos_trivial)
  have sec: "(d div 1000000000) * 1000000000 = d" if "d mod 1000000000 = 0"
    using that div_mult_mod_eq [of d 1000000000] by simp
  show ?thesis using ms big sec by (simp add: sentExpiration_def)
qed

text \<open>
  C1, as the code has it. Let the limit be an \<^verbatim>\<open>int\<close>, the window positive and the store
  reachable. A request that is allowed stores the count it read plus one and sets the
  deadline of the key anew, whether or not the key was there before: the deadline is
  the time of the write plus the window as the client sends it, which is the window
  itself when the window is a whole number of milliseconds. Up to that deadline the
  count read back is the old count plus one.
\<close>

theorem checkRateLimit_allowed:
  assumes "snd (checkRateLimit c t1 t2 key limit dur) = None"
    and "\<not> get_down c" and "\<not> set_down c"
    and "limit \<le> maxInt" and "0 < dur"
  shows "entries (fst (checkRateLimit c t1 t2 key limit dur)) key =
           Some \<lparr> val = Itoa (currentCount c t1 key + 1),
                  expireAt = Some (t2 + sentExpiration dur) \<rparr> \<and>
         (dur mod 1000000 = 0 \<longrightarrow> sentExpiration dur = dur) \<and>
         (\<forall>t. t \<le> t2 + sentExpiration dur \<longrightarrow>
            currentCount (fst (checkRateLimit c t1 t2 key limit dur)) t key =
              currentCount c t1 key + 1)"
proof -
  let ?n = "currentCount c t1 key"
  from assms(1) have lt: "?n < limit" by (simp add: checkRateLimit_allowed_iff)
  then have run: "fst (checkRateLimit c t1 t2 key limit dur) =
      c\<lparr> entries := (entries c)(key \<mapsto>
          \<lparr> val = Itoa (?n + 1), expireAt = Some (t2 + sentExpiration dur) \<rparr>) \<rparr>"
    using assms(3,5) by (simp add: checkRateLimit_def Let_def Set_def)
  from lt assms(4) currentCount_range [of c t1 key]
  have "minInt \<le> ?n + 1" "?n + 1 \<le> maxInt" by simp_all
  then have rt: "Atoi (Itoa (?n + 1)) = (?n + 1, None)" by (rule Atoi_Itoa)
  have ms: "dur mod 1000000 = 0 \<longrightarrow> sentExpiration dur = dur"
    using sentExpiration_whole_ms [OF assms(5)] by simp
  show ?thesis
    unfolding run using assms(2) rt Itoa_nonempty [of "?n + 1"] ms
    by (simp add: lookup_def currentCount_def Get_def Let_def)
qed

theorem checkRateLimit_allowed_witness:
  "entries (fst (checkRateLimit
       \<lparr> entries = [rateLimitKey ''otp'' ''+1234567890'' \<mapsto>
                     \<lparr> val = ''1'', expireAt = Some 100000000000 \<rparr>],
         get_down = False, set_down = False, del_down = False \<rparr>
       50000000000 50000000000 (rateLimitKey ''otp'' ''+1234567890'') 3 600000000000))
     (rateLimitKey ''otp'' ''+1234567890'') =
   Some \<lparr> val = ''2'', expireAt = Some 650000000000 \<rparr>"
proof -
  let ?c = "\<lparr> entries = [rateLimitKey ''otp'' ''+1234567890'' \<mapsto>
                     \<lparr> val = ''1'', expireAt = Some 100000000000 \<rparr>],
         get_down = False, set_down = False, del_down = False \<rparr>"
  let ?key = "rateLimitKey ''otp'' ''+1234567890''"
  have n: "currentCount ?c 50000000000 ?key = 1"
    by (simp add: currentCount_def Get_def lookup_def Atoi_def digitVal_def maxUint64_def)
  have a: "snd (checkRateLimit ?c 50000000000 50000000000 ?key 3 600000000000) = None"
    by (simp add: checkRateLimit_allowed_iff n)
  have b: "\<not> get_down ?c" "\<not> set_down ?c" "(3::int) \<le> maxInt" "(0::int) < 600000000000"
    by (simp_all add: maxInt_def)
  note r = checkRateLimit_allowed [OF a b]
  have v: "Itoa (currentCount ?c 50000000000 ?key + 1) = ''2''"
    by (simp add: n Itoa_def natDigits.simps digitChar_def)
  have e: "sentExpiration 600000000000 = 600000000000"
    by (simp add: sentExpiration_def)
  from r have "entries (fst (checkRateLimit ?c 50000000000 50000000000 ?key 3 600000000000)) ?key =
      Some \<lparr> val = Itoa (currentCount ?c 50000000000 ?key + 1),
             expireAt = Some (50000000000 + sentExpiration 600000000000) \<rparr>"
    by blast
  then show ?thesis unfolding v e by simp
qed

text \<open>
  C1 as stated fails: with the window of ten minutes, a key that holds the count 1 and
  has its deadline at 100 s is, after one more allowed request at 50 s, left with the
  count 2 and the deadline at 650 s. The later request has moved the end of the window.
\<close>

theorem checkRateLimit_resets_ttl:
  "checkRateLimit
       \<lparr> entries = [rateLimitKey ''otp'' ''+1234567890'' \<mapsto>
                     \<lparr> val = ''1'', expireAt = Some 100000000000 \<rparr>],
         get_down = False, set_down = False, del_down = False \<rparr>
       50000000000 50000000000 (rateLimitKey ''otp'' ''+1234567890'') 3 600000000000 =
     (\<lparr> entries = [rateLimitKey ''otp'' ''+1234567890'' \<mapsto>
                     \<lparr> val = ''2'', expireAt = Some 650000000000 \<rparr>],
         get_down = False, set_down = False, del_down = False \<rparr>, None)"
  by (simp add: checkRateLimit_def currentCount_def Get_def Set_def lookup_def Atoi_def
      Itoa_def natDigits.simps digitChar_def digitVal_def maxUint64_def sentExpiration_def)

text \<open>
  C8. A store that cannot be reached never turns a request down. The verdict of a
  request whose \<^verbatim>\<open>Get\<close> fails is the verdict it gets from a reachable store that does
  not hold the key, and the verdict does not depend on whether \<^verbatim>\<open>Set\<close> fails. So with
  a limit of at least 1, a request whose \<^verbatim>\<open>Get\<close> fails is allowed; and whenever
  \<^verbatim>\<open>Set\<close> is called, that is when the count read is below the limit, the request is
  allowed although \<^verbatim>\<open>Set\<close> fails, and the store is left as it was.
\<close>

theorem checkRateLimit_fails_open:
  "(get_down c \<longrightarrow>
      snd (checkRateLimit c t1 t2 key limit dur) =
      snd (checkRateLimit (c\<lparr> entries := Map.empty, get_down := False \<rparr>) t1 t2 key limit dur)) \<and>
   snd (checkRateLimit c t1 t2 key limit dur) =
     snd (checkRateLimit (c\<lparr> set_down := False \<rparr>) t1 t2 key limit dur) \<and>
   (1 \<le> limit \<and> get_down c \<longrightarrow> snd (checkRateLimit c t1 t2 key limit dur) = None) \<and>
   (set_down c \<and> currentCount c t1 key < limit \<longrightarrow>
      checkRateLimit c t1 t2 key limit dur = (c, None))"
  by (simp add: checkRateLimit_def currentCount_def Get_def Set_def lookup_def Let_def)

theorem checkRateLimit_fails_open_witness:
  "checkRateLimit \<lparr> entries = Map.empty, get_down = True, set_down = True, del_down = True \<rparr>
     50 50 (rateLimitKey ''global'' ''10.0.0.1'') 100 60000000000 =
   (\<lparr> entries = Map.empty, get_down = True, set_down = True, del_down = True \<rparr>, None)"
proof -
  let ?c = "\<lparr> entries = Map.empty, get_down = True, set_down = True, del_down = True \<rparr>"
  have a: "set_down ?c \<and> currentCount ?c 50 (rateLimitKey ''global'' ''10.0.0.1'') < 100"
    by (simp add: currentCount_def Get_def)
  note r = checkRateLimit_fails_open
    [of ?c 50 50 "rateLimitKey ''global'' ''10.0.0.1''" 100 60000000000]
  from r a show ?thesis by blast
qed

section \<open>Properties of the OTP service\<close>

lemma stringOfByte_nonempty: "stringOfByte b \<noteq> []"
  by (simp add: stringOfByte_def)

lemma genLoop_length:
  "genLoop charset rnd n i acc = (code, None) \<Longrightarrow> length acc + n \<le> length code"
proof (induction n arbitrary: i acc)
  case 0
  then show ?case by simp
next
  case (Suc n)
  from Suc.prems obtain num where num: "rnd i = Some num"
    by (cases "rnd i") simp_all
  let ?s = "stringOfByte (charset ! (num mod length charset))"
  from Suc.prems num have "genLoop charset rnd n (Suc i) (acc @ ?s) = (code, None)" by simp
  from Suc.IH [OF this] have "length (acc @ ?s) + n \<le> length code" .
  moreover have "1 \<le> length ?s"
    using stringOfByte_nonempty [of "charset ! (num mod length charset)"]
    by (cases ?s) simp_all
  ultimately show ?case by simp
qed

lemma GenerateOTP_success:
  assumes "GenerateOTP cfg c t0 rnd phone = (c1, code, None)"
  shows "generateRandomCode cfg rnd (Length cfg) = (code, None) \<and>
         Set c t0 (otpKey cfg phone) code (Expiry cfg) = (c1, None)"
  using assms
  by (auto simp: GenerateOTP_def split: prod.splits option.splits)

lemma GenerateOTP_code_nonempty:
  assumes "GenerateOTP cfg c t0 rnd phone = (c1, code, None)" "1 \<le> Length cfg"
  shows "code \<noteq> []"
proof -
  from GenerateOTP_success [OF assms(1)]
  have "generateRandomCode cfg rnd (Length cfg) = (code, None)" by simp
  then have "length ([] :: string) + nat (Length cfg) \<le> length code"
    unfolding generateRandomCode_def Let_def by (rule genLoop_length)
  with assms(2) show ?thesis by auto
qed

text \<open>
  C4. Let \<^verbatim>\<open>GenerateOTP\<close> for a phone number return a code without an error, with a
  configured code length of at least 1 and an expiry other than \<open>KeepTTL\<close>, and let the
  store be reachable. A \<^verbatim>\<open>ValidateOTP\<close> with that code, made before the key expires,
  that is no later than the expiry as the client sends it after the time of the write,
  succeeds and deletes the key; a second \<^verbatim>\<open>ValidateOTP\<close> with the same code, at any
  later time, fails with the not-found-or-expired error and leaves the store as it is.
\<close>

theorem otp_validates_exactly_once:
  assumes "GenerateOTP cfg c t0 rnd phone = (c1, code, None)"
    and "1 \<le> Length cfg"
    and "Expiry cfg \<noteq> KeepTTL"
    and "0 < Expiry cfg \<longrightarrow> t1 \<le> t0 + sentExpiration (Expiry cfg)"
    and "\<not> get_down c" and "\<not> del_down c"
  shows "snd (ValidateOTP cfg c1 t1 phone code) = None \<and>
         entries (fst (ValidateOTP cfg c1 t1 phone code)) (otpKey cfg phone) = None \<and>
         ValidateOTP cfg (fst (ValidateOTP cfg c1 t1 phone code)) t2 phone code =
           (fst (ValidateOTP cfg c1 t1 phone code), Some ErrOTPNotFound)"
proof -
  let ?key = "otpKey cfg phone"
  from GenerateOTP_success [OF assms(1)]
  have set: "Set c t0 ?key code (Expiry cfg) = (c1, None)" by simp
  then have nd: "\<not> set_down c" by (auto simp: Set_def split: if_splits)
  from set nd assms(3)
  have c1: "c1 = c\<lparr> entries := (entries c)(?key \<mapsto>
              \<lparr> val = code,
                expireAt = (if 0 < Expiry cfg then Some (t0 + sentExpiration (Expiry cfg))
                            else None) \<rparr>) \<rparr>"
    by (auto simp: Set_def Let_def)
  have ne: "code \<noteq> []" using GenerateOTP_code_nonempty [OF assms(1,2)] .
  have get: "Get c1 t1 ?key = (code, None)"
    using assms(4,5) by (auto simp: c1 Get_def lookup_def)
  have first: "ValidateOTP cfg c1 t1 phone code = (c1\<lparr> entries := (entries c1)(?key := None) \<rparr>, None)"
    using get ne assms(6) by (simp add: ValidateOTP_def Del_def c1)
  have second: "ValidateOTP cfg (c1\<lparr> entries := (entries c1)(?key := None) \<rparr>) t2 phone code =
      (c1\<lparr> entries := (entries c1)(?key := None) \<rparr>, Some ErrOTPNotFound)"
    by (simp add: ValidateOTP_def Get_def lookup_def)
  show ?thesis unfolding first using second by simp
qed

theorem otp_validates_exactly_once_witness:
  "snd (ValidateOTP
      \<lparr> Length = 2, Expiry = 120000000000, RedisKeyPrefix = ''otp'', CodeCharset = [] \<rparr>
      (fst (GenerateOTP
              \<lparr> Length = 2, Expiry = 120000000000, RedisKeyPrefix = ''otp'', CodeCharset = [] \<rparr>
              \<lparr> entries = Map.empty, get_down = False, set_down = False, del_down = False \<rparr>
              10000000000 (\<lambda>i. Some (4 + 13 * i)) ''+1234567890''))
      100000000000 ''+1234567890'' ''47'') = None"
proof -
  let ?cfg = "\<lparr> Length = 2, Expiry = 120000000000, RedisKeyPrefix = ''otp'',
                CodeCharset = [] \<rparr>"
  let ?c = "\<lparr> entries = Map.empty, get_down = False, set_down = False, del_down = False \<rparr>"
  let ?rnd = "\<lambda>i::nat. Some (4 + 13 * i)"
  have two: "nat 2 = Suc (Suc 0)" "(2::nat) = Suc (Suc 0)" by simp_all
  have g: "GenerateOTP ?cfg ?c 10000000000 ?rnd ''+1234567890'' =
      (fst (GenerateOTP ?cfg ?c 10000000000 ?rnd ''+1234567890''), ''47'', None)"
    by (simp add: GenerateOTP_def generateRandomCode_def two stringOfByte_def Set_def KeepTTL_def)
  have h: "1 \<le> Length ?cfg" "Expiry ?cfg \<noteq> KeepTTL"
    "0 < Expiry ?cfg \<longrightarrow> (100000000000::int) \<le> 10000000000 + sentExpiration (Expiry ?cfg)"
    "\<not> get_down ?c" "\<not> del_down ?c"
    by (simp_all add: KeepTTL_def sentExpiration_def)
  note r = otp_validates_exactly_once [OF g h]
  from r show ?thesis by blast
qed

text \<open>
  C5. Let a phone number have a pending code: the store holds a non-empty code under
  its key, not expired, and can be read. A \<^verbatim>\<open>ValidateOTP\<close> with any other code fails
  with the invalid-code error and leaves the store exactly as it was, value and deadline.
  A \<^verbatim>\<open>ValidateOTP\<close> with the stored code that follows while the key has not expired
  succeeds.
\<close>

theorem otp_wrong_code_keeps_pending:
  assumes "lookup c t1 (otpKey cfg phone) = Some e"
    and "val e \<noteq> []"
    and "wrong \<noteq> val e"
    and "\<not> get_down c"
  shows "ValidateOTP cfg c t1 phone wrong = (c, Some ErrInvalidOTP) \<and>
         (lookup c t2 (otpKey cfg phone) = Some e \<and> \<not> del_down c \<longrightarrow>
            snd (ValidateOTP cfg (fst (ValidateOTP cfg c t1 phone wrong)) t2 phone (val e)) = None)"
proof -
  have first: "ValidateOTP cfg c t1 phone wrong = (c, Some ErrInvalidOTP)"
    using assms by (auto simp: ValidateOTP_def Get_def)
  have "snd (ValidateOTP cfg c t2 phone (val e)) = None"
    if "lookup c t2 (otpKey cfg phone) = Some e" "\<not> del_down c"
    using that assms(2,4) by (simp add: ValidateOTP_def Get_def Del_def)
  with first show ?thesis by simp
qed

theorem otp_wrong_code_keeps_pending_witness:
  "ValidateOTP \<lparr> Length = 6, Expiry = 120, RedisKeyPrefix = ''otp'', CodeCharset = [] \<rparr>
     \<lparr> entries = [''otp:+1234567890'' \<mapsto> \<lparr> val = ''123456'', expireAt = Some 130 \<rparr>],
       get_down = False, set_down = False, del_down = False \<rparr>
     100 ''+1234567890'' ''000000'' =
   (\<lparr> entries = [''otp:+1234567890'' \<mapsto> \<lparr> val = ''123456'', expireAt = Some 130 \<rparr>],
       get_down = False, set_down = False, del_down = False \<rparr>, Some ErrInvalidOTP) \<and>
   snd (ValidateOTP \<lparr> Length = 6, Expiry = 120, RedisKeyPrefix = ''otp'', CodeCharset = [] \<rparr>
     (fst (ValidateOTP \<lparr> Length = 6, Expiry = 120, RedisKeyPrefix = ''otp'', CodeCharset = [] \<rparr>
       \<lparr> entries = [''otp:+1234567890'' \<mapsto> \<lparr> val = ''123456'', expireAt = Some 130 \<rparr>],
         get_down = False, set_down = False, del_down = False \<rparr>
       100 ''+1234567890'' ''000000''))
     110 ''+1234567890'' ''123456'') = None"
proof -
  let ?cfg = "\<lparr> Length = 6, Expiry = 120, RedisKeyPrefix = ''otp'', CodeCharset = [] \<rparr>"
  let ?c = "\<lparr> entries = [''otp:+1234567890'' \<mapsto> \<lparr> val = ''123456'', expireAt = Some 130 \<rparr>],
       get_down = False, set_down = False, del_down = False \<rparr>"
  let ?e = "\<lparr> val = ''123456'', expireAt = Some (130::int) \<rparr>"
  have a: "lookup ?c 100 (otpKey ?cfg ''+1234567890'') = Some ?e" "val ?e \<noteq> []"
    "''000000'' \<noteq> val ?e" "\<not> get_down ?c"
    by (simp_all add: lookup_def otpKey_def)
  have b: "lookup ?c 110 (otpKey ?cfg ''+1234567890'') = Some ?e \<and> \<not> del_down ?c"
    by (simp add: lookup_def otpKey_def)
  have v: "val ?e = ''123456''" by simp
  note r = otp_wrong_code_keeps_pending [OF a, of 110, unfolded v]
  from r b show ?thesis by blast
qed

section \<open>Properties of the retry helper\<close>





section \<open>Properties of the connection pool\<close>

text \<open>
  C3 fails on the code. A pool with \<open>maxOpen = 1\<close> and \<open>maxIdle = 1\<close> gives its one
  connection to a first \<^verbatim>\<open>Get\<close>; a second \<^verbatim>\<open>Get\<close> blocks on channel 0. \<^verbatim>\<open>Put\<close> of the
  connection stores it idle and then also sends it to the waiter, whose \<^verbatim>\<open>Get\<close> appends
  it to the active list and returns it: the connection is active and idle at once, and
  the two lists together hold more than \<open>maxOpen\<close>. With \<open>maxIdle = 0\<close> the same
  schedule hands the waiter a connection that \<^verbatim>\<open>Put\<close> has closed.
\<close>

theorem Put_idles_and_hands_to_waiter:
  "snd (PoolRun (\<lambda>_. True) (NewConnectionPool 1 1)
          [OpGet (Inr 7), OpGet (Inr 8), OpPut 7, OpReceive 0]) =
     [OutGet (Returned (Some 7) None), OutGet (Blocked 0), OutDone, OutWoken (Some 7) None] \<and>
   connections (fst (PoolRun (\<lambda>_. True) (NewConnectionPool 1 1)
          [OpGet (Inr 7), OpGet (Inr 8), OpPut 7, OpReceive 0])) = [Some 7] \<and>
   idle (fst (PoolRun (\<lambda>_. True) (NewConnectionPool 1 1)
          [OpGet (Inr 7), OpGet (Inr 8), OpPut 7, OpReceive 0])) = [7] \<and>
   maxOpen (fst (PoolRun (\<lambda>_. True) (NewConnectionPool 1 1)
          [OpGet (Inr 7), OpGet (Inr 8), OpPut 7, OpReceive 0])) = 1 \<and>
   snd (PoolRun (\<lambda>_. True) (NewConnectionPool 1 0)
          [OpGet (Inr 7), OpGet (Inr 8), OpPut 7, OpReceive 0]) =
     [OutGet (Returned (Some 7) None), OutGet (Blocked 0), OutDone, OutWoken (Some 7) None] \<and>
   closedConns (fst (PoolRun (\<lambda>_. True) (NewConnectionPool 1 0)
          [OpGet (Inr 7), OpGet (Inr 8), OpPut 7, OpReceive 0])) = [7]"
  by (simp add: NewConnectionPool_def PoolGet_def PoolPut_def PoolGetReceive_def)

lemma PoolClose_closes_all:
  assumes "\<not> closed p"
  shows "closed (PoolClose p) \<and> connections (PoolClose p) = [] \<and> idle (PoolClose p) = [] \<and>
         waiting (PoolClose p) = [] \<and>
         set (idle p) \<subseteq> set (closedConns (PoolClose p)) \<and>
         (\<forall>conn. Some conn \<in> set (connections p) \<longrightarrow> conn \<in> set (closedConns (PoolClose p))) \<and>
         (\<forall>w \<in> set (waiting p). chans (PoolClose p) w = ChanClosed)"
  using assms by (force simp: PoolClose_def List.map_filter_def image_iff)

text \<open>
  C9 fails on the code. With \<open>maxOpen = 1\<close>, a first \<^verbatim>\<open>Get\<close> takes the one connection
  and a second \<^verbatim>\<open>Get\<close> blocks on channel 0. \<^verbatim>\<open>Close\<close> closes the active connection and
  the channel. The blocked \<^verbatim>\<open>Get\<close> then receives nil from the closed channel, appends it
  to the active list of the closed pool and returns the nil connection with a nil error.
\<close>

theorem Close_wakes_waiter_with_nil:
  "snd (PoolRun (\<lambda>_. True) (NewConnectionPool 1 1)
          [OpGet (Inr 7), OpGet (Inr 8), OpClose, OpReceive 0]) =
     [OutGet (Returned (Some 7) None), OutGet (Blocked 0), OutDone, OutWoken None None] \<and>
   closed (fst (PoolRun (\<lambda>_. True) (NewConnectionPool 1 1)
          [OpGet (Inr 7), OpGet (Inr 8), OpClose, OpReceive 0])) \<and>
   connections (fst (PoolRun (\<lambda>_. True) (NewConnectionPool 1 1)
          [OpGet (Inr 7), OpGet (Inr 8), OpClose, OpReceive 0])) = [None] \<and>
   closedConns (fst (PoolRun (\<lambda>_. True) (NewConnectionPool 1 1)
          [OpGet (Inr 7), OpGet (Inr 8), OpClose, OpReceive 0])) = [7]"
  by (simp add: NewConnectionPool_def PoolGet_def PoolClose_def PoolGetReceive_def)

end
